theory Spec2Isabelle
  imports Main "HOL-Library.Word"
begin

unbundle bit_operations_syntax

section \<open>The scripted PDU store of unit/test-avdtp.c\<close>

type_synonym byte = "8 word"

text \<open>
  \<^verbatim>\<open>struct test_pdu { bool valid; const uint8_t *data; size_t size; }\<close>.
  The pair (data, size) only ever denotes the byte array made by \<^verbatim>\<open>raw_pdu\<close>
  (size = sizeof(data)) or the zeroed entry (NULL, 0), so it is one byte list and
  the field \<^verbatim>\<open>size\<close> is its length.
\<close>

record test_pdu =
  valid :: bool
  data :: "byte list"

definition pdu_size :: "test_pdu \<Rightarrow> nat" where
  "pdu_size p = length (data p)"

definition raw_pdu :: "byte list \<Rightarrow> test_pdu" where
  "raw_pdu args = \<lparr>valid = True, data = args\<rparr>"

text \<open>The zero-initialised entry \<^verbatim>\<open>{ }\<close> that ends a script.\<close>

definition sentinel :: test_pdu where
  "sentinel = \<lparr>valid = False, data = []\<rparr>"

text \<open>\<^verbatim>\<open>define_test\<close>: the array \<^verbatim>\<open>{ args, { }, { } }\<close> copied into the test data.\<close>

definition define_test :: "test_pdu list \<Rightarrow> test_pdu list" where
  "define_test args = args @ [sentinel, sentinel]"

section \<open>The scenario context and its environment\<close>

text \<open>
  \<^verbatim>\<open>struct context\<close>, reduced to what the harness code reads and writes: the cursor
  \<^verbatim>\<open>pdu_offset\<close> (an unsigned int; a script in memory is far shorter than \<open>2^32\<close>
  entries, it is a natural number here), the script, whether \<^verbatim>\<open>g_main_loop_quit\<close>
  was called on \<^verbatim>\<open>main_loop\<close>, the number of pending idle sources running
  \<^verbatim>\<open>send_pdu\<close> for this context, and the buffers handed to \<^verbatim>\<open>write\<close> on
  \<^verbatim>\<open>fd\<close> so far, one per call.
\<close>

record struct_context =
  pdu_offset :: nat
  pdu_list :: "test_pdu list"
  main_loop_quit :: bool
  idle_sends :: nat
  fd_out :: "byte list list"

text \<open>
  A \<^verbatim>\<open>g_assert\<close> that fails aborts the process; reading an entry that is not in the
  array is undefined behaviour. Both end the scenario and carry the context as
  it was at that moment.
\<close>

datatype failure = AssertFailed | Fault

type_synonym 'a result = "(failure \<times> struct_context) + 'a"

text \<open>Reading through \<^verbatim>\<open>&context->pdu_list[i]\<close>.\<close>

definition pdu_at :: "struct_context \<Rightarrow> nat \<Rightarrow> test_pdu option" where
  "pdu_at c i = (if i < length (pdu_list c) then Some (pdu_list c ! i) else None)"

text \<open>
  What the kernel holds for a \<^verbatim>\<open>read\<close> on the sequenced-packet socket: an error
  (the call returns -1) or the next packet (an empty one for end of file). A read
  into a buffer of \<open>n\<close> bytes returns the count and the bytes stored, a longer
  packet being cut at \<open>n\<close>.
\<close>

datatype inbound = ReadError | Packet "byte list"

fun sys_read :: "nat \<Rightarrow> inbound \<Rightarrow> int \<times> byte list" where
  "sys_read n ReadError = (- 1, [])"
| "sys_read n (Packet bs) = (int (min n (length bs)), take n bs)"

text \<open>\<^verbatim>\<open>memcmp(a, b, n) == 0\<close>.\<close>

definition memcmp_eq :: "byte list \<Rightarrow> byte list \<Rightarrow> nat \<Rightarrow> bool" where
  "memcmp_eq a b n = (take n a = take n b)"

text \<open>The GLib condition bits.\<close>

type_synonym GIOCondition = "32 word"

definition G_IO_IN :: GIOCondition where "G_IO_IN = 1"
definition G_IO_ERR :: GIOCondition where "G_IO_ERR = 8"
definition G_IO_HUP :: GIOCondition where "G_IO_HUP = 16"
definition G_IO_NVAL :: GIOCondition where "G_IO_NVAL = 32"

section \<open>The harness functions\<close>

definition context_quit :: "struct_context \<Rightarrow> struct_context" where
  "context_quit c = c\<lparr>main_loop_quit := True\<rparr>"

text \<open>
  \<^verbatim>\<open>send_pdu\<close>: \<open>wr\<close> is what the single \<^verbatim>\<open>write(fd, pdu->data, pdu->size)\<close>
  returns. The boolean is the GSourceFunc result (FALSE removes the idle source).
\<close>

definition send_pdu :: "struct_context \<Rightarrow> int \<Rightarrow> (bool \<times> struct_context) result" where
  "send_pdu c wr =
     (let c1 = c\<lparr>pdu_offset := pdu_offset c + 1\<rparr> in
      case pdu_at c (pdu_offset c) of
        None \<Rightarrow> Inl (Fault, c1)
      | Some pdu \<Rightarrow>
          (let c2 = c1\<lparr>fd_out := fd_out c1 @ [take (pdu_size pdu) (data pdu)]\<rparr> in
           if wr = int (pdu_size pdu) then Inr (False, c2)
           else Inl (AssertFailed, c2)))"

definition context_process :: "struct_context \<Rightarrow> struct_context result" where
  "context_process c =
     (case pdu_at c (pdu_offset c) of
        None \<Rightarrow> Inl (Fault, c)
      | Some pdu \<Rightarrow>
          if \<not> valid pdu then Inr (context_quit c)
          else Inr (c\<lparr>idle_sends := idle_sends c + 1\<rparr>))"

definition test_handler ::
  "struct_context \<Rightarrow> GIOCondition \<Rightarrow> inbound \<Rightarrow> (bool \<times> struct_context) result" where
  "test_handler c cond inb =
     (let c1 = c\<lparr>pdu_offset := pdu_offset c + 1\<rparr> in
      if cond AND (G_IO_NVAL OR G_IO_ERR OR G_IO_HUP) \<noteq> 0 then Inr (False, c1)
      else
        (let (len, buf) = sys_read 512 inb in
         if \<not> 0 < len then Inl (AssertFailed, c1)
         else
           (case pdu_at c (pdu_offset c) of
              None \<Rightarrow> Inl (Fault, c1)
            | Some pdu \<Rightarrow>
                if nat len \<noteq> pdu_size pdu then Inl (AssertFailed, c1)
                else if \<not> memcmp_eq buf (data pdu) (pdu_size pdu) then Inl (AssertFailed, c1)
                else
                  (case context_process c1 of
                     Inl e \<Rightarrow> Inl e
                   | Inr c2 \<Rightarrow> Inr (True, c2)))))"

section \<open>The main loop\<close>

text \<open>
  The loop dispatches one ready source at a time. \<open>Idle wr\<close> runs one pending idle
  source (\<open>wr\<close> is the return value of its \<^verbatim>\<open>write\<close>); \<open>Readable cond inb\<close> is
  the watch on the peer endpoint firing with condition \<open>cond\<close> while the kernel
  holds \<open>inb\<close>. A source whose callback returns FALSE is removed. The trace
  records which script entry each callback consumed.
\<close>

datatype event = Idle int | Readable GIOCondition inbound

datatype obs = Sent nat "byte list" | Verified nat "byte list" | Skipped nat

record loop =
  ctx :: struct_context
  watch :: bool
  trace :: "obs list"

definition dispatch :: "loop \<Rightarrow> event \<Rightarrow> loop result" where
  "dispatch l ev =
     (case ev of
        Idle wr \<Rightarrow>
          if idle_sends (ctx l) = 0 then Inr l
          else
            (case send_pdu (ctx l) wr of
               Inl e \<Rightarrow> Inl e
             | Inr (again, c') \<Rightarrow>
                 Inr (l\<lparr>ctx := (if again then c' else c'\<lparr>idle_sends := idle_sends c' - 1\<rparr>),
                        trace := trace l @ [Sent (pdu_offset (ctx l)) (last (fd_out c'))]\<rparr>))
      | Readable cond inb \<Rightarrow>
          if \<not> watch l then Inr l
          else
            (case test_handler (ctx l) cond inb of
               Inl e \<Rightarrow> Inl e
             | Inr (keep, c') \<Rightarrow>
                 Inr (l\<lparr>ctx := c', watch := keep,
                        trace := trace l @
                          [if keep then Verified (pdu_offset (ctx l)) (snd (sys_read 512 inb))
                           else Skipped (pdu_offset (ctx l))]\<rparr>)))"

text \<open>\<^verbatim>\<open>g_main_loop_run\<close>: dispatch until \<^verbatim>\<open>g_main_loop_quit\<close> has been called.\<close>

fun g_main_loop_run :: "loop \<Rightarrow> event list \<Rightarrow> loop result" where
  "g_main_loop_run l [] = Inr l"
| "g_main_loop_run l (ev # evs) =
     (if main_loop_quit (ctx l) then Inr l
      else
        (case dispatch l ev of
           Inl e \<Rightarrow> Inl e
         | Inr l' \<Rightarrow> g_main_loop_run l' evs))"

text \<open>\<^verbatim>\<open>create_context\<close>: the zeroed context (\<^verbatim>\<open>g_new0\<close>) with the watch added.\<close>

definition create_context :: loop where
  "create_context =
     \<lparr>ctx = \<lparr>pdu_offset = 0, pdu_list = [], main_loop_quit = False, idle_sends = 0,
             fd_out = []\<rparr>,
      watch = True, trace = []\<rparr>"

definition execute_context :: "loop \<Rightarrow> event list \<Rightarrow> loop result" where
  "execute_context l evs = g_main_loop_run l evs"

text \<open>
  \<^verbatim>\<open>test_server\<close> sets the script and adds the first idle send before it runs the
  loop. \<^verbatim>\<open>test_discover\<close> and the other client scenarios set the script and start
  a discovery in the Session Engine; they add no idle source themselves.
\<close>

definition test_server :: "test_pdu list \<Rightarrow> event list \<Rightarrow> loop result" where
  "test_server pdus evs =
     (let l = create_context;
          l1 = l\<lparr>ctx := (ctx l)\<lparr>pdu_list := pdus\<rparr>\<rparr>;
          l2 = l1\<lparr>ctx := (ctx l1)\<lparr>idle_sends := idle_sends (ctx l1) + 1\<rparr>\<rparr>
      in execute_context l2 evs)"

definition test_discover :: "test_pdu list \<Rightarrow> event list \<Rightarrow> loop result" where
  "test_discover pdus evs =
     (let l = create_context;
          l1 = l\<lparr>ctx := (ctx l)\<lparr>pdu_list := pdus\<rparr>\<rparr>
      in execute_context l1 evs)"

section \<open>The session callbacks\<close>

text \<open>
  Modelled from the spec: the declarations of android/avdtp.h and the constructor
  \<^verbatim>\<open>avdtp_service_cap_new\<close> of android/avdtp.c are not part of the source at hand.
  The category tags and the media type are an enumeration; a capability record
  holds the category tag, the payload and the payload length it was built from;
  the codec payload is \<^verbatim>\<open>struct avdtp_media_codec_capability\<close> (media type, codec
  type, codec bytes), whose fixed part is 2 bytes, as the length octet 0x06 before
  the 4 codec bytes in the scripted capability responses shows.
\<close>

datatype service_category = AVDTP_MEDIA_TRANSPORT | AVDTP_MEDIA_CODEC

datatype avdtp_media_type = AVDTP_MEDIA_TYPE_AUDIO | AVDTP_MEDIA_TYPE_VIDEO

record avdtp_media_codec_capability =
  media_type :: avdtp_media_type
  media_codec_type :: byte
  codec_data :: "byte list"

record avdtp_service_capability =
  category :: service_category
  cap_length :: nat
  cap_payload :: "avdtp_media_codec_capability option"

definition sizeof_codec_caps :: nat where
  "sizeof_codec_caps = 2"

definition avdtp_service_cap_new ::
  "service_category \<Rightarrow> avdtp_media_codec_capability option \<Rightarrow> nat \<Rightarrow> avdtp_service_capability" where
  "avdtp_service_cap_new cat payload len =
     \<lparr>category = cat, cap_length = len, cap_payload = payload\<rparr>"

text \<open>
  \<^verbatim>\<open>sep_getcap_ind\<close>: the arguments are the flag and the contents of the two output
  slots \<^verbatim>\<open>*caps\<close> and \<^verbatim>\<open>*err\<close>; the result is the return value and the slots
  afterwards.
\<close>

definition sep_getcap_ind ::
  "bool \<Rightarrow> avdtp_service_capability list \<Rightarrow> byte \<Rightarrow>
   bool \<times> avdtp_service_capability list \<times> byte" where
  "sep_getcap_ind get_all caps err =
     (let cap = [0xff, 0xff, 2, 64];
          caps0 = [];
          media_transport = avdtp_service_cap_new AVDTP_MEDIA_TRANSPORT None 0;
          caps1 = caps0 @ [media_transport];
          codec_caps = \<lparr>media_type = AVDTP_MEDIA_TYPE_AUDIO, media_codec_type = 0x00,
                        codec_data = cap\<rparr>;
          media_codec = avdtp_service_cap_new AVDTP_MEDIA_CODEC (Some codec_caps)
                          (sizeof_codec_caps + length cap);
          caps2 = caps1 @ [media_codec]
      in (True, caps2, err))"

text \<open>
  The error indicator of a confirmation is a pointer, NULL when the operation
  succeeded. What the Session Engine and the kernel answer to the calls made by
  the callbacks is the environment; the callbacks return the calls they made.
\<close>

datatype avdtp_error = Avdtp_error int

record engine =
  avdtp_get_configuration_ret :: int
  avdtp_open_ret :: int
  avdtp_start_ret :: int
  avdtp_set_configuration_ret :: int
  remote_sep_found :: bool
  open_dev_null_ret :: int

datatype engine_call =
    Get_configuration
  | Open_stream
  | Stream_set_transport int nat nat
  | Start_stream
  | Find_remote_sep
  | Set_configuration "avdtp_service_capability list"

definition sep_setconf_cfm ::
  "engine \<Rightarrow> struct_context option \<Rightarrow> avdtp_error option \<Rightarrow> failure + engine_call list" where
  "sep_setconf_cfm eng context err =
     (if err \<noteq> None then Inl AssertFailed
      else
        (case context of
           None \<Rightarrow> Inr []
         | Some c \<Rightarrow>
             (case pdu_at c (pdu_offset c) of
                None \<Rightarrow> Inl Fault
              | Some pdu \<Rightarrow>
                  if pdu_size pdu < 2 then Inr []
                  else if data pdu ! 1 = 0x04 then
                    (if avdtp_get_configuration_ret eng = 0 then Inr [Get_configuration]
                     else Inl AssertFailed)
                  else if data pdu ! 1 = 0x06 then
                    (if avdtp_open_ret eng = 0 then Inr [Open_stream]
                     else Inl AssertFailed)
                  else Inl AssertFailed)))"

definition sep_open_cfm :: "engine \<Rightarrow> avdtp_error option \<Rightarrow> failure + engine_call list" where
  "sep_open_cfm eng err =
     (if err \<noteq> None then Inl AssertFailed
      else
        (let ret = open_dev_null_ret eng in
         if ret < 0 then Inl AssertFailed
         else if avdtp_start_ret eng = 0 then
           Inr [Stream_set_transport ret 672 672, Start_stream]
         else Inl AssertFailed))"

definition discover_cb ::
  "engine \<Rightarrow> struct_context option \<Rightarrow> 'sep list \<Rightarrow> avdtp_error option \<Rightarrow>
   failure + engine_call list" where
  "discover_cb eng context seps err =
     (case context of
        None \<Rightarrow> Inr []
      | Some c \<Rightarrow>
          if err \<noteq> None then Inl AssertFailed
          else if \<not> length seps \<noteq> 0 then Inl AssertFailed
          else if \<not> remote_sep_found eng then Inl AssertFailed
          else
            (let data4 = [0x21, 0x02, 2, 32];
                 media_transport = avdtp_service_cap_new AVDTP_MEDIA_TRANSPORT None 0;
                 caps1 = [] @ [media_transport];
                 cap = \<lparr>media_type = AVDTP_MEDIA_TYPE_AUDIO, media_codec_type = 0x00,
                         codec_data = data4\<rparr>;
                 media_codec = avdtp_service_cap_new AVDTP_MEDIA_CODEC (Some cap)
                                 (sizeof_codec_caps + length data4);
                 caps2 = caps1 @ [media_codec]
             in if avdtp_set_configuration_ret eng = 0 then
                  Inr [Find_remote_sep, Set_configuration caps2]
                else Inl AssertFailed))"

section \<open>Observations on a run\<close>

text \<open>The context a handler call leaves behind, whether it returned or aborted.\<close>

definition outcome_context :: "(bool \<times> struct_context) result \<Rightarrow> struct_context" where
  "outcome_context r = (case r of Inl (f, c) \<Rightarrow> c | Inr (b, c) \<Rightarrow> c)"

fun obs_index :: "obs \<Rightarrow> nat" where
  "obs_index (Sent i bs) = i"
| "obs_index (Verified i bs) = i"
| "obs_index (Skipped i) = i"

text \<open>The bytes of an observation are those of the script entry it names.\<close>

fun obs_matches :: "test_pdu list \<Rightarrow> obs \<Rightarrow> bool" where
  "obs_matches pdus (Sent i bs) = (i < length pdus \<and> bs = data (pdus ! i))"
| "obs_matches pdus (Verified i bs) = (i < length pdus \<and> bs = data (pdus ! i))"
| "obs_matches pdus (Skipped i) = True"

fun count_sent :: "obs list \<Rightarrow> nat" where
  "count_sent [] = 0"
| "count_sent (Sent i bs # tr) = Suc (count_sent tr)"
| "count_sent (ob # tr) = count_sent tr"

fun count_verified :: "obs list \<Rightarrow> nat" where
  "count_verified [] = 0"
| "count_verified (Verified i bs # tr) = Suc (count_verified tr)"
| "count_verified (ob # tr) = count_verified tr"

text \<open>
  Reading a trace from its start with \<open>credit\<close> sends allowed: a verified read
  allows one more send, a send uses one up and needs one to be there.
\<close>

fun causal :: "nat \<Rightarrow> obs list \<Rightarrow> bool" where
  "causal credit [] = True"
| "causal credit (Sent i bs # tr) = (0 < credit \<and> causal (credit - 1) tr)"
| "causal credit (Verified i bs # tr) = causal (credit + 1) tr"
| "causal credit (Skipped i # tr) = causal credit tr"

definition loop_inv :: "test_pdu list \<Rightarrow> nat \<Rightarrow> loop \<Rightarrow> bool" where
  "loop_inv pdus n0 l =
     (pdu_list (ctx l) = pdus
      \<and> map obs_index (trace l) = [0..<pdu_offset (ctx l)]
      \<and> list_all (obs_matches pdus) (trace l)
      \<and> causal n0 (trace l)
      \<and> count_sent (trace l) + idle_sends (ctx l) \<le> n0 + count_verified (trace l))"

subsection \<open>Scripts registered by main\<close>

text \<open>/TP/SIG/SMG/BV-06-C (run by \<^verbatim>\<open>test_server\<close>) and /TP/SIG/SMG/BV-07-C.\<close>

definition bv06 :: "test_pdu list" where
  "bv06 = define_test [raw_pdu [0x00, 0x01], raw_pdu [0x02, 0x01, 0x04, 0x00]]"

definition bv07 :: "test_pdu list" where
  "bv07 = define_test [raw_pdu [0x10, 0x01], raw_pdu [0x12, 0x01, 0x04, 0x00],
                       raw_pdu [0x20, 0x02, 0x04]]"

text \<open>/TP/SIG/SMG/BV-08-C, four entries.\<close>

definition bv08 :: "test_pdu list" where
  "bv08 = define_test [raw_pdu [0x00, 0x01], raw_pdu [0x02, 0x01, 0x04, 0x00],
                       raw_pdu [0x10, 0x02, 0x04],
                       raw_pdu [0x12, 0x02, 0x01, 0x00, 0x07, 0x06, 0x00, 0x00,
                                0xff, 0xff, 0x02, 0x40]]"

text \<open>BV-06-C after its first send, waiting for the discover response.\<close>

definition bv06_awaiting :: struct_context where
  "bv06_awaiting =
     \<lparr>pdu_offset = 1, pdu_list = bv06, main_loop_quit = False, idle_sends = 0,
      fd_out = [[0x00, 0x01]]\<rparr>"

definition bv06_done :: loop where
  "bv06_done =
     \<lparr>ctx = \<lparr>pdu_offset = 2, pdu_list = bv06, main_loop_quit = True, idle_sends = 0,
             fd_out = [[0x00, 0x01]]\<rparr>,
      watch = True,
      trace = [Sent 0 [0x00, 0x01], Verified 1 [0x02, 0x01, 0x04, 0x00]]\<rparr>"

text \<open>BV-07-C after the discover command was verified, its response scheduled.\<close>

definition bv07_pending :: struct_context where
  "bv07_pending =
     \<lparr>pdu_offset = 1, pdu_list = bv07, main_loop_quit = False, idle_sends = 1, fd_out = []\<rparr>"

definition bv07_done :: loop where
  "bv07_done =
     \<lparr>ctx = \<lparr>pdu_offset = 3, pdu_list = bv07, main_loop_quit = True, idle_sends = 0,
             fd_out = [[0x12, 0x01, 0x04, 0x00]]\<rparr>,
      watch = True,
      trace = [Verified 0 [0x10, 0x01], Sent 1 [0x12, 0x01, 0x04, 0x00],
               Verified 2 [0x20, 0x02, 0x04]]\<rparr>"

text \<open>A script whose first entry has 513 bytes.\<close>

definition long_entry :: struct_context where
  "long_entry =
     \<lparr>pdu_offset = 0, pdu_list = define_test [raw_pdu (replicate 513 0x2a)],
      main_loop_quit = False, idle_sends = 0, fd_out = []\<rparr>"

section \<open>Auxiliary facts\<close>

lemmas eval_defs =
  test_server_def test_discover_def execute_context_def create_context_def dispatch_def
  send_pdu_def test_handler_def context_process_def context_quit_def pdu_at_def pdu_size_def
  memcmp_eq_def define_test_def raw_pdu_def sentinel_def
  G_IO_IN_def G_IO_HUP_def G_IO_ERR_def G_IO_NVAL_def Let_def

lemma terminal_iff:
  "(cond AND (G_IO_NVAL OR G_IO_ERR OR G_IO_HUP) \<noteq> 0) =
   (cond AND G_IO_ERR \<noteq> 0 \<or> cond AND G_IO_HUP \<noteq> 0 \<or> cond AND G_IO_NVAL \<noteq> 0)"
  by (auto simp: bit.conj_disj_distrib or_eq_0_iff)

lemma in_not_terminal: "G_IO_IN AND (G_IO_NVAL OR G_IO_ERR OR G_IO_HUP) = 0"
  by (simp add: G_IO_HUP_def G_IO_NVAL_def G_IO_ERR_def G_IO_IN_def)

lemma sys_read_length: "sys_read n inb = (len, buf) \<Longrightarrow> 0 < len \<Longrightarrow> nat len = length buf"
  by (cases inb) auto

lemma sys_read_bound: "sys_read n inb = (len, buf) \<Longrightarrow> len \<le> int n \<and> length buf \<le> n"
  by (cases inb) auto

lemma define_test_nth_data:
  "i < length (define_test args) \<Longrightarrow> data (define_test args ! i) \<noteq> [] \<Longrightarrow> i < length args"
  by (cases "i < length args")
     (auto simp: define_test_def nth_append sentinel_def nth_Cons split: nat.splits)

lemma test_handler_terminal:
  "cond AND (G_IO_NVAL OR G_IO_ERR OR G_IO_HUP) \<noteq> 0 \<Longrightarrow>
   test_handler c cond inb = Inr (False, c\<lparr>pdu_offset := pdu_offset c + 1\<rparr>)"
  by (simp add: test_handler_def)

lemma test_handler_nothing_read:
  assumes "cond AND (G_IO_NVAL OR G_IO_ERR OR G_IO_HUP) = 0"
    and "\<not> 0 < fst (sys_read 512 inb)"
  shows "test_handler c cond inb = Inl (AssertFailed, c\<lparr>pdu_offset := pdu_offset c + 1\<rparr>)"
proof (cases "sys_read 512 inb")
  case (Pair len buf)
  with assms show ?thesis by (simp add: test_handler_def)
qed

lemma test_handler_mismatch:
  assumes "cond AND (G_IO_NVAL OR G_IO_ERR OR G_IO_HUP) = 0"
    and "pdu_offset c < length (pdu_list c)"
    and "snd (sys_read 512 inb) \<noteq> data (pdu_list c ! pdu_offset c)"
  shows "test_handler c cond inb = Inl (AssertFailed, c\<lparr>pdu_offset := pdu_offset c + 1\<rparr>)"
proof (cases "sys_read 512 inb")
  case (Pair len buf)
  show ?thesis
  proof (cases "0 < len")
    case False
    with Pair assms(1) show ?thesis by (simp add: test_handler_def)
  next
    case True
    with Pair have lb: "nat len = length buf" by (rule sys_read_length)
    from assms(3) Pair have ne: "buf \<noteq> data (pdu_list c ! pdu_offset c)" by simp
    show ?thesis
      using Pair True assms(1,2) lb ne
      by (auto simp: test_handler_def pdu_at_def pdu_size_def memcmp_eq_def Let_def)
  qed
qed

lemma test_handler_match:
  assumes "cond AND (G_IO_NVAL OR G_IO_ERR OR G_IO_HUP) = 0"
    and "pdu_offset c < length (pdu_list c)"
    and "Suc (pdu_offset c) < length (pdu_list c)"
    and "sys_read 512 inb = (len, buf)" and "0 < len"
    and "buf = data (pdu_list c ! pdu_offset c)"
  shows "test_handler c cond inb =
    (if valid (pdu_list c ! Suc (pdu_offset c))
     then Inr (True, c\<lparr>pdu_offset := pdu_offset c + 1, idle_sends := idle_sends c + 1\<rparr>)
     else Inr (True, c\<lparr>pdu_offset := pdu_offset c + 1, main_loop_quit := True\<rparr>))"
proof -
  from assms(4,5) have lb: "nat len = length buf" by (rule sys_read_length)
  show ?thesis
    using assms lb
    by (simp add: test_handler_def pdu_at_def pdu_size_def memcmp_eq_def context_process_def
        context_quit_def)
qed

lemma test_handler_offset:
  "pdu_offset (outcome_context (test_handler c cond inb)) = pdu_offset c + 1"
  by (auto simp: test_handler_def outcome_context_def Let_def context_process_def
      context_quit_def split: prod.splits option.splits sum.splits if_splits)

lemma send_pdu_Inr:
  "send_pdu c wr = Inr (again, c') \<Longrightarrow>
     pdu_offset c < length (pdu_list c) \<and> \<not> again \<and>
     c' = c\<lparr>pdu_offset := pdu_offset c + 1,
            fd_out := fd_out c @ [data (pdu_list c ! pdu_offset c)]\<rparr>"
  by (auto simp: send_pdu_def pdu_at_def pdu_size_def Let_def split: option.splits if_splits)

lemma test_handler_Inr_keep:
  "test_handler c cond inb = Inr (True, c') \<Longrightarrow>
     pdu_offset c < length (pdu_list c) \<and>
     snd (sys_read 512 inb) = data (pdu_list c ! pdu_offset c) \<and>
     pdu_list c' = pdu_list c \<and> pdu_offset c' = pdu_offset c + 1 \<and>
     idle_sends c' \<le> idle_sends c + 1"
  apply (cases "sys_read 512 inb")
  apply (auto simp: test_handler_def pdu_at_def pdu_size_def Let_def memcmp_eq_def
        context_process_def context_quit_def
        split: option.splits if_splits sum.splits dest: sys_read_length)
  done

lemma test_handler_Inr_stop:
  "test_handler c cond inb = Inr (False, c') \<Longrightarrow> c' = c\<lparr>pdu_offset := pdu_offset c + 1\<rparr>"
  by (cases "sys_read 512 inb")
     (auto simp: test_handler_def Let_def split: option.splits if_splits sum.splits)

subsection \<open>Traces\<close>

lemma count_sent_snoc:
  "count_sent (tr @ [ob]) = count_sent tr + (case ob of Sent i bs \<Rightarrow> 1 | _ \<Rightarrow> 0)"
  by (induction tr rule: count_sent.induct) (auto split: obs.splits)

lemma count_verified_snoc:
  "count_verified (tr @ [ob]) = count_verified tr + (case ob of Verified i bs \<Rightarrow> 1 | _ \<Rightarrow> 0)"
  by (induction tr rule: count_verified.induct) (auto split: obs.splits)

lemma causal_snoc_sent:
  "causal n (tr @ [Sent i bs]) = (causal n tr \<and> count_sent tr < n + count_verified tr)"
  by (induction n tr rule: causal.induct) auto

lemma causal_snoc_other:
  "causal n (tr @ [Verified i bs]) = causal n tr"
  "causal n (tr @ [Skipped i]) = causal n tr"
  by (induction n tr rule: causal.induct) auto

subsection \<open>The loop keeps its invariant\<close>

lemma dispatch_inv:
  assumes "dispatch l ev = Inr l'" and "loop_inv pdus n0 l"
  shows "loop_inv pdus n0 l'"
proof (cases ev)
  case (Idle wr)
  show ?thesis
  proof (cases "idle_sends (ctx l) = 0")
    case True
    with Idle assms show ?thesis by (simp add: dispatch_def)
  next
    case False
    with Idle assms(1) obtain again c' where
      sp: "send_pdu (ctx l) wr = Inr (again, c')"
      and l': "l' = l\<lparr>ctx := (if again then c' else c'\<lparr>idle_sends := idle_sends c' - 1\<rparr>),
                     trace := trace l @ [Sent (pdu_offset (ctx l)) (last (fd_out c'))]\<rparr>"
      by (auto simp: dispatch_def split: sum.splits)
    from send_pdu_Inr [OF sp] have
      rng: "pdu_offset (ctx l) < length (pdu_list (ctx l))" and na: "\<not> again"
      and c': "c' = (ctx l)\<lparr>pdu_offset := pdu_offset (ctx l) + 1,
            fd_out := fd_out (ctx l) @ [data (pdu_list (ctx l) ! pdu_offset (ctx l))]\<rparr>"
      by simp_all
    show ?thesis
      using assms(2) False rng na
      by (simp add: loop_inv_def l' c' causal_snoc_sent count_sent_snoc count_verified_snoc)
  qed
next
  case (Readable cond inb)
  show ?thesis
  proof (cases "watch l")
    case False
    with Readable assms show ?thesis by (simp add: dispatch_def)
  next
    case True
    with Readable assms(1) obtain keep c' where
      th: "test_handler (ctx l) cond inb = Inr (keep, c')"
      and l': "l' = l\<lparr>ctx := c', watch := keep,
                    trace := trace l @
                      [if keep then Verified (pdu_offset (ctx l)) (snd (sys_read 512 inb))
                       else Skipped (pdu_offset (ctx l))]\<rparr>"
      by (auto simp: dispatch_def split: sum.splits)
    show ?thesis
    proof (cases keep)
      case True
      with th have "test_handler (ctx l) cond inb = Inr (True, c')" by simp
      from test_handler_Inr_keep [OF this] show ?thesis
        using assms(2) True
        by (simp add: loop_inv_def l' causal_snoc_other count_sent_snoc count_verified_snoc)
    next
      case False
      with th have "test_handler (ctx l) cond inb = Inr (False, c')" by simp
      from test_handler_Inr_stop [OF this] show ?thesis
        using assms(2) False
        by (simp add: loop_inv_def l' causal_snoc_other count_sent_snoc count_verified_snoc)
    qed
  qed
qed

lemma g_main_loop_run_inv:
  "g_main_loop_run l evs = Inr l' \<Longrightarrow> loop_inv pdus n0 l \<Longrightarrow> loop_inv pdus n0 l'"
proof (induction evs arbitrary: l)
  case Nil
  then show ?case by simp
next
  case (Cons ev evs)
  show ?case
  proof (cases "main_loop_quit (ctx l)")
    case True
    with Cons.prems show ?thesis by simp
  next
    case False
    with Cons.prems(1) obtain l1 where d: "dispatch l ev = Inr l1"
      and r: "g_main_loop_run l1 evs = Inr l'"
      by (auto split: sum.splits)
    from dispatch_inv [OF d Cons.prems(2)] have "loop_inv pdus n0 l1" .
    from Cons.IH [OF r this] show ?thesis .
  qed
qed

text \<open>Once the watch is gone nothing can ask the loop to quit.\<close>

lemma dispatch_unwatched:
  assumes "dispatch l ev = Inr l'" and "\<not> watch l" and "\<not> main_loop_quit (ctx l)"
  shows "\<not> watch l' \<and> \<not> main_loop_quit (ctx l')"
proof (cases ev)
  case (Idle wr)
  show ?thesis
  proof (cases "idle_sends (ctx l) = 0")
    case True
    with Idle assms show ?thesis by (simp add: dispatch_def)
  next
    case False
    with Idle assms(1) obtain again c' where
      sp: "send_pdu (ctx l) wr = Inr (again, c')"
      and l': "l' = l\<lparr>ctx := (if again then c' else c'\<lparr>idle_sends := idle_sends c' - 1\<rparr>),
                     trace := trace l @ [Sent (pdu_offset (ctx l)) (last (fd_out c'))]\<rparr>"
      by (auto simp: dispatch_def split: sum.splits)
    from send_pdu_Inr [OF sp] assms(2,3) show ?thesis
      by (simp add: l')
  qed
next
  case (Readable cond inb)
  with assms show ?thesis by (simp add: dispatch_def)
qed

lemma g_main_loop_run_unwatched:
  "g_main_loop_run l evs = Inr l' \<Longrightarrow> \<not> watch l \<Longrightarrow> \<not> main_loop_quit (ctx l) \<Longrightarrow>
   \<not> watch l' \<and> \<not> main_loop_quit (ctx l')"
proof (induction evs arbitrary: l)
  case Nil
  then show ?case by simp
next
  case (Cons ev evs)
  from Cons.prems(1,3) obtain l1 where d: "dispatch l ev = Inr l1"
    and r: "g_main_loop_run l1 evs = Inr l'"
    by (auto split: sum.splits)
  from dispatch_unwatched [OF d Cons.prems(2,3)] have "\<not> watch l1" "\<not> main_loop_quit (ctx l1)"
    by simp_all
  from Cons.IH [OF r this] show ?case .
qed

subsection \<open>A script of sentinels verifies nothing\<close>

lemma test_handler_sentinels:
  "pdu_list c = define_test [] \<Longrightarrow> test_handler c cond inb = Inr (keep, c') \<Longrightarrow>
   \<not> keep \<and> c' = c\<lparr>pdu_offset := pdu_offset c + 1\<rparr>"
  by (cases "sys_read 512 inb")
     (auto simp: test_handler_def pdu_at_def pdu_size_def define_test_def sentinel_def Let_def
        nth_Cons' split: if_splits option.splits sum.splits)

lemma dispatch_sentinels:
  assumes "dispatch l ev = Inr l'" and "pdu_list (ctx l) = define_test []"
    and "count_verified (trace l) = 0" and "\<not> main_loop_quit (ctx l)"
  shows "pdu_list (ctx l') = define_test [] \<and> count_verified (trace l') = 0
     \<and> \<not> main_loop_quit (ctx l')"
proof (cases ev)
  case (Idle wr)
  show ?thesis
  proof (cases "idle_sends (ctx l) = 0")
    case True
    with Idle assms show ?thesis by (simp add: dispatch_def)
  next
    case False
    with Idle assms(1) obtain again c' where
      sp: "send_pdu (ctx l) wr = Inr (again, c')"
      and l': "l' = l\<lparr>ctx := (if again then c' else c'\<lparr>idle_sends := idle_sends c' - 1\<rparr>),
                     trace := trace l @ [Sent (pdu_offset (ctx l)) (last (fd_out c'))]\<rparr>"
      by (auto simp: dispatch_def split: sum.splits)
    from send_pdu_Inr [OF sp] assms(2,3,4) show ?thesis
      by (simp add: l' count_verified_snoc)
  qed
next
  case (Readable cond inb)
  show ?thesis
  proof (cases "watch l")
    case False
    with Readable assms show ?thesis by (simp add: dispatch_def)
  next
    case True
    with Readable assms(1) obtain keep c' where
      th: "test_handler (ctx l) cond inb = Inr (keep, c')"
      and l': "l' = l\<lparr>ctx := c', watch := keep,
                    trace := trace l @
                      [if keep then Verified (pdu_offset (ctx l)) (snd (sys_read 512 inb))
                       else Skipped (pdu_offset (ctx l))]\<rparr>"
      by (auto simp: dispatch_def split: sum.splits)
    from test_handler_sentinels [OF assms(2) th] assms(2,3,4) show ?thesis
      by (simp add: l' count_verified_snoc)
  qed
qed

lemma g_main_loop_run_sentinels:
  "g_main_loop_run l evs = Inr l' \<Longrightarrow> pdu_list (ctx l) = define_test [] \<Longrightarrow>
   count_verified (trace l) = 0 \<Longrightarrow> \<not> main_loop_quit (ctx l) \<Longrightarrow>
   count_verified (trace l') = 0 \<and> \<not> main_loop_quit (ctx l')"
proof (induction evs arbitrary: l)
  case Nil
  then show ?case by simp
next
  case (Cons ev evs)
  from Cons.prems(1,4) obtain l1 where d: "dispatch l ev = Inr l1"
    and r: "g_main_loop_run l1 evs = Inr l'"
    by (auto split: sum.splits)
  from dispatch_sentinels [OF d Cons.prems(2,3,4)]
  have "pdu_list (ctx l1) = define_test []" "count_verified (trace l1) = 0"
    "\<not> main_loop_quit (ctx l1)"
    by simp_all
  from Cons.IH [OF r this] show ?case .
qed

subsection \<open>Two complete runs\<close>

lemma bv06_run:
  "test_server bv06 [Idle 2, Readable G_IO_IN (Packet [0x02, 0x01, 0x04, 0x00])] = Inr bv06_done"
  by (simp add: eval_defs bv06_def bv06_done_def)

lemma bv07_run:
  "test_discover bv07 [Readable G_IO_IN (Packet [0x10, 0x01]), Idle 4,
                       Readable G_IO_IN (Packet [0x20, 0x02, 0x04])] = Inr bv07_done"
  by (simp add: eval_defs bv07_def bv07_done_def)

section \<open>The read handler on a data event\<close>

text \<open>
  C1. On a data event (none of the error, hangup and invalid bits set) for a
  script built by \<^verbatim>\<open>define_test\<close>, the read handler reads once into its buffer
  and compares what it read with the entry at the cursor, in length and byte for
  byte. A read that returns nothing or a mismatch of either kind fails an
  assertion. Otherwise the handler keeps the watch and, looking at the entry
  after the verified one, either asks the loop to quit (that entry is the
  terminal sentinel) or adds one idle source for the next send.
\<close>

theorem test_handler_data_event:
  assumes script: "pdu_list c = define_test args"
    and inrange: "pdu_offset c < length (pdu_list c)"
    and data_ev: "cond AND (G_IO_NVAL OR G_IO_ERR OR G_IO_HUP) = 0"
  shows "test_handler c cond inb =
    (let (len, buf) = sys_read 512 inb;
         c1 = c\<lparr>pdu_offset := pdu_offset c + 1\<rparr>;
         expected = pdu_list c ! pdu_offset c;
         following = pdu_list c ! (pdu_offset c + 1)
     in if 0 < len \<and> nat len = length (data expected) \<and> buf = data expected
        then (if valid following then Inr (True, c1\<lparr>idle_sends := idle_sends c + 1\<rparr>)
              else Inr (True, c1\<lparr>main_loop_quit := True\<rparr>))
        else Inl (AssertFailed, c1))"
proof (cases "sys_read 512 inb")
  case (Pair len buf)
  show ?thesis
  proof (cases "0 < len \<and> buf = data (pdu_list c ! pdu_offset c)")
    case True
    then have pos: "0 < len" and eq: "buf = data (pdu_list c ! pdu_offset c)" by simp_all
    from Pair pos have lb: "nat len = length buf" by (rule sys_read_length)
    with pos have "buf \<noteq> []" by auto
    with eq script inrange have "pdu_offset c < length args"
      using define_test_nth_data [of "pdu_offset c" args] by simp
    then have nxt: "Suc (pdu_offset c) < length (pdu_list c)"
      by (simp add: script define_test_def)
    show ?thesis
      using test_handler_match [OF data_ev inrange nxt Pair pos eq] Pair pos eq lb
      by simp
  next
    case False
    then have "snd (sys_read 512 inb) \<noteq> data (pdu_list c ! pdu_offset c) \<or> \<not> 0 < len"
      using Pair by auto
    then show ?thesis
    proof
      assume "snd (sys_read 512 inb) \<noteq> data (pdu_list c ! pdu_offset c)"
      from test_handler_mismatch [OF data_ev inrange this] Pair False show ?thesis
        by auto
    next
      assume "\<not> 0 < len"
      with Pair data_ev show ?thesis by (simp add: test_handler_def)
    qed
  qed
qed

text \<open>
  BV-06-C waiting for the discover response: the expected bytes end the scenario
  (the next entry is the sentinel), one altered byte aborts it.
\<close>

theorem test_handler_data_event_witness:
  "pdu_list bv06_awaiting = define_test [raw_pdu [0x00, 0x01], raw_pdu [0x02, 0x01, 0x04, 0x00]]
   \<and> pdu_offset bv06_awaiting < length (pdu_list bv06_awaiting)
   \<and> G_IO_IN AND (G_IO_NVAL OR G_IO_ERR OR G_IO_HUP) = 0
   \<and> test_handler bv06_awaiting G_IO_IN (Packet [0x02, 0x01, 0x04, 0x00]) =
       Inr (True, bv06_awaiting\<lparr>pdu_offset := 2, main_loop_quit := True\<rparr>)
   \<and> test_handler bv06_awaiting G_IO_IN (Packet [0x02, 0x01, 0x04, 0x01]) =
       Inl (AssertFailed, bv06_awaiting\<lparr>pdu_offset := 2\<rparr>)"
proof -
  have h1: "pdu_list bv06_awaiting =
      define_test [raw_pdu [0x00, 0x01], raw_pdu [0x02, 0x01, 0x04, 0x00]]"
    by (simp add: bv06_awaiting_def bv06_def)
  have h2: "pdu_offset bv06_awaiting < length (pdu_list bv06_awaiting)"
    by (simp add: bv06_awaiting_def bv06_def define_test_def)
  have h3: "G_IO_IN AND (G_IO_NVAL OR G_IO_ERR OR G_IO_HUP) = 0"
    by (rule in_not_terminal)
  have a: "test_handler bv06_awaiting G_IO_IN (Packet [0x02, 0x01, 0x04, 0x00]) =
       Inr (True, bv06_awaiting\<lparr>pdu_offset := 2, main_loop_quit := True\<rparr>)"
    using test_handler_data_event [OF h1 h2 h3, of "Packet [0x02, 0x01, 0x04, 0x00]"]
    by (simp add: bv06_awaiting_def bv06_def define_test_def raw_pdu_def sentinel_def)
  have b: "test_handler bv06_awaiting G_IO_IN (Packet [0x02, 0x01, 0x04, 0x01]) =
       Inl (AssertFailed, bv06_awaiting\<lparr>pdu_offset := 2\<rparr>)"
    using test_handler_data_event [OF h1 h2 h3, of "Packet [0x02, 0x01, 0x04, 0x01]"]
    by (simp add: bv06_awaiting_def bv06_def define_test_def raw_pdu_def sentinel_def)
  from h1 h2 h3 a b show ?thesis by blast
qed

section \<open>Order of sends and verified reads\<close>

text \<open>
  C2, as stated, fails: nothing makes sends and reads alternate. In a client
  scenario over the four entries of BV-08-C, two packets read one after the other
  are both verified before the first scheduled send runs, and the two sends then
  follow each other with no read between them. In the server scenario a hangup
  uses up entry 2 unverified while a send is pending, and entry 3 is sent all the
  same.
\<close>

theorem no_strict_interleaving_counterexample:
  "test_discover bv08
     [Readable G_IO_IN (Packet [0x00, 0x01]), Readable G_IO_IN (Packet [0x02, 0x01, 0x04, 0x00]),
      Idle 3, Idle 12] =
     Inr \<lparr>ctx = \<lparr>pdu_offset = 4, pdu_list = bv08, main_loop_quit = False, idle_sends = 0,
                 fd_out = [[0x10, 0x02, 0x04],
                           [0x12, 0x02, 0x01, 0x00, 0x07, 0x06, 0x00, 0x00,
                            0xff, 0xff, 0x02, 0x40]]\<rparr>,
          watch = True,
          trace = [Verified 0 [0x00, 0x01], Verified 1 [0x02, 0x01, 0x04, 0x00],
                   Sent 2 [0x10, 0x02, 0x04],
                   Sent 3 [0x12, 0x02, 0x01, 0x00, 0x07, 0x06, 0x00, 0x00,
                           0xff, 0xff, 0x02, 0x40]]\<rparr>
   \<and> test_server bv08
     [Idle 2, Readable G_IO_IN (Packet [0x02, 0x01, 0x04, 0x00]), Readable G_IO_HUP (Packet []),
      Idle 12] =
     Inr \<lparr>ctx = \<lparr>pdu_offset = 4, pdu_list = bv08, main_loop_quit = False, idle_sends = 0,
                 fd_out = [[0x00, 0x01],
                           [0x12, 0x02, 0x01, 0x00, 0x07, 0x06, 0x00, 0x00,
                            0xff, 0xff, 0x02, 0x40]]\<rparr>,
          watch = False,
          trace = [Sent 0 [0x00, 0x01], Verified 1 [0x02, 0x01, 0x04, 0x00], Skipped 2,
                   Sent 3 [0x12, 0x02, 0x01, 0x00, 0x07, 0x06, 0x00, 0x00,
                           0xff, 0xff, 0x02, 0x40]]\<rparr>"
  by (simp add: eval_defs bv08_def)

text \<open>
  C2, amended. In every run of the main loop started by \<^verbatim>\<open>test_server\<close> (one
  idle send added at the start) or by a client scenario such as
  \<^verbatim>\<open>test_discover\<close> (none), whatever the events: the callbacks consume the
  entries 0, 1, 2, ... of the script in order, each send and each verified read
  carrying the bytes of its entry; every send uses up a credit given by the
  initial scheduling or by a read verified before it; and the sends made plus the
  sends pending never exceed the initial ones plus the verified reads. The loop
  has idle and readiness events only, no timer.
\<close>

theorem sends_follow_verified_reads:
  "(test_server pdus evs = Inr l \<longrightarrow>
      map obs_index (trace l) = [0..<pdu_offset (ctx l)]
      \<and> list_all (obs_matches pdus) (trace l)
      \<and> causal 1 (trace l)
      \<and> count_sent (trace l) + idle_sends (ctx l) \<le> 1 + count_verified (trace l))
   \<and> (test_discover pdus evs = Inr l \<longrightarrow>
      map obs_index (trace l) = [0..<pdu_offset (ctx l)]
      \<and> list_all (obs_matches pdus) (trace l)
      \<and> causal 0 (trace l)
      \<and> count_sent (trace l) + idle_sends (ctx l) \<le> count_verified (trace l))"
proof (intro conjI impI)
  assume a: "test_server pdus evs = Inr l"
  then have "g_main_loop_run
      \<lparr>ctx = \<lparr>pdu_offset = 0, pdu_list = pdus, main_loop_quit = False, idle_sends = 1,
              fd_out = []\<rparr>, watch = True, trace = []\<rparr> evs = Inr l"
    by (simp add: test_server_def execute_context_def create_context_def)
  from g_main_loop_run_inv [OF this, of pdus 1] have inv: "loop_inv pdus 1 l"
    by (simp add: loop_inv_def)
  from inv show "map obs_index (trace l) = [0..<pdu_offset (ctx l)]" by (simp add: loop_inv_def)
  from inv show "list_all (obs_matches pdus) (trace l)" by (simp add: loop_inv_def)
  from inv show "causal 1 (trace l)" by (simp add: loop_inv_def)
  from inv show "count_sent (trace l) + idle_sends (ctx l) \<le> 1 + count_verified (trace l)"
    by (simp add: loop_inv_def)
next
  assume a: "test_discover pdus evs = Inr l"
  then have "g_main_loop_run
      \<lparr>ctx = \<lparr>pdu_offset = 0, pdu_list = pdus, main_loop_quit = False, idle_sends = 0,
              fd_out = []\<rparr>, watch = True, trace = []\<rparr> evs = Inr l"
    by (simp add: test_discover_def execute_context_def create_context_def)
  from g_main_loop_run_inv [OF this, of pdus 0] have inv: "loop_inv pdus 0 l"
    by (simp add: loop_inv_def)
  from inv show "map obs_index (trace l) = [0..<pdu_offset (ctx l)]" by (simp add: loop_inv_def)
  from inv show "list_all (obs_matches pdus) (trace l)" by (simp add: loop_inv_def)
  from inv show "causal 0 (trace l)" by (simp add: loop_inv_def)
  from inv show "count_sent (trace l) + idle_sends (ctx l) \<le> count_verified (trace l)"
    by (simp add: loop_inv_def)
qed

text \<open>The complete runs of BV-06-C (server) and BV-07-C (client).\<close>

theorem sends_follow_verified_reads_witness:
  "test_server bv06 [Idle 2, Readable G_IO_IN (Packet [0x02, 0x01, 0x04, 0x00])] = Inr bv06_done
   \<and> trace bv06_done = [Sent 0 [0x00, 0x01], Verified 1 [0x02, 0x01, 0x04, 0x00]]
   \<and> causal 1 (trace bv06_done)
   \<and> count_sent (trace bv06_done) + idle_sends (ctx bv06_done)
       \<le> 1 + count_verified (trace bv06_done)
   \<and> test_discover bv07 [Readable G_IO_IN (Packet [0x10, 0x01]), Idle 4,
                         Readable G_IO_IN (Packet [0x20, 0x02, 0x04])] = Inr bv07_done
   \<and> map obs_index (trace bv07_done) = [0..<pdu_offset (ctx bv07_done)]
   \<and> causal 0 (trace bv07_done)
   \<and> count_sent (trace bv07_done) + idle_sends (ctx bv07_done)
       \<le> count_verified (trace bv07_done)"
proof -
  note s = sends_follow_verified_reads [of bv06
      "[Idle 2, Readable G_IO_IN (Packet [0x02, 0x01, 0x04, 0x00])]" bv06_done, THEN conjunct1]
  note d = sends_follow_verified_reads [of bv07
      "[Readable G_IO_IN (Packet [0x10, 0x01]), Idle 4,
        Readable G_IO_IN (Packet [0x20, 0x02, 0x04])]" bv07_done, THEN conjunct2]
  have t: "trace bv06_done = [Sent 0 [0x00, 0x01], Verified 1 [0x02, 0x01, 0x04, 0x00]]"
    by (simp add: bv06_done_def)
  from s bv06_run d bv07_run t show ?thesis by blast
qed

section \<open>The cursor and verification\<close>

text \<open>
  C3, as stated, fails: the cursor does not wait for a successful verification.
  With BV-06-C waiting for its response, a hangup moves the cursor from 1 to 2
  though nothing is read or compared, and a response with one altered byte
  aborts with the cursor already at 2.
\<close>

theorem cursor_advance_counterexample:
  "test_handler bv06_awaiting G_IO_HUP ReadError =
     Inr (False, \<lparr>pdu_offset = 2, pdu_list = bv06, main_loop_quit = False, idle_sends = 0,
                  fd_out = [[0x00, 0x01]]\<rparr>)
   \<and> test_handler bv06_awaiting G_IO_IN (Packet [0x02, 0x01, 0x04, 0x01]) =
     Inl (AssertFailed, \<lparr>pdu_offset = 2, pdu_list = bv06, main_loop_quit = False,
                         idle_sends = 0, fd_out = [[0x00, 0x01]]\<rparr>)"
  by (simp add: eval_defs bv06_def bv06_awaiting_def)

text \<open>
  C3, amended. The read handler advances the cursor by one on every call, before
  anything is read or compared. On a data event whose observed bytes differ from
  the entry at the cursor, in length or in content, it aborts on an assertion at
  that entry, the cursor being one past it; and a data event on which the handler
  returns is one whose observed bytes equal the entry, the cursor having advanced
  by exactly one.
\<close>

theorem mismatch_aborts_at_entry:
  assumes "cond AND (G_IO_NVAL OR G_IO_ERR OR G_IO_HUP) = 0"
    and "pdu_offset c < length (pdu_list c)"
  shows "(snd (sys_read 512 inb) \<noteq> data (pdu_list c ! pdu_offset c) \<longrightarrow>
            test_handler c cond inb = Inl (AssertFailed, c\<lparr>pdu_offset := pdu_offset c + 1\<rparr>))
     \<and> (\<forall>r c'. test_handler c cond inb = Inr (r, c') \<longrightarrow>
            snd (sys_read 512 inb) = data (pdu_list c ! pdu_offset c)
            \<and> pdu_offset c' = pdu_offset c + 1)
     \<and> pdu_offset (outcome_context (test_handler c cond inb)) = pdu_offset c + 1"
proof (intro conjI allI impI)
  assume "snd (sys_read 512 inb) \<noteq> data (pdu_list c ! pdu_offset c)"
  from test_handler_mismatch [OF assms this]
  show "test_handler c cond inb = Inl (AssertFailed, c\<lparr>pdu_offset := pdu_offset c + 1\<rparr>)" .
next
  fix r c' assume ok: "test_handler c cond inb = Inr (r, c')"
  show "snd (sys_read 512 inb) = data (pdu_list c ! pdu_offset c)"
  proof (rule ccontr)
    assume "snd (sys_read 512 inb) \<noteq> data (pdu_list c ! pdu_offset c)"
    from test_handler_mismatch [OF assms this] ok show False by simp
  qed
  from ok show "pdu_offset c' = pdu_offset c + 1"
    by (cases r) (auto dest: test_handler_Inr_keep test_handler_Inr_stop)
next
  show "pdu_offset (outcome_context (test_handler c cond inb)) = pdu_offset c + 1"
    by (rule test_handler_offset)
qed

theorem mismatch_aborts_at_entry_witness:
  "G_IO_IN AND (G_IO_NVAL OR G_IO_ERR OR G_IO_HUP) = 0
   \<and> pdu_offset bv06_awaiting < length (pdu_list bv06_awaiting)
   \<and> snd (sys_read 512 (Packet [0x02, 0x01, 0x05, 0x00])) \<noteq>
       data (pdu_list bv06_awaiting ! pdu_offset bv06_awaiting)
   \<and> test_handler bv06_awaiting G_IO_IN (Packet [0x02, 0x01, 0x05, 0x00]) =
       Inl (AssertFailed, bv06_awaiting\<lparr>pdu_offset := 2\<rparr>)
   \<and> test_handler bv06_awaiting G_IO_IN (Packet [0x02, 0x01, 0x04, 0x00]) =
       Inr (True, bv06_awaiting\<lparr>pdu_offset := 2, main_loop_quit := True\<rparr>)
   \<and> snd (sys_read 512 (Packet [0x02, 0x01, 0x04, 0x00])) =
       data (pdu_list bv06_awaiting ! pdu_offset bv06_awaiting)"
proof -
  have h1: "G_IO_IN AND (G_IO_NVAL OR G_IO_ERR OR G_IO_HUP) = 0" by (rule in_not_terminal)
  have h2: "pdu_offset bv06_awaiting < length (pdu_list bv06_awaiting)"
    by (simp add: bv06_awaiting_def bv06_def define_test_def)
  have h3: "snd (sys_read 512 (Packet [0x02, 0x01, 0x05, 0x00])) \<noteq>
       data (pdu_list bv06_awaiting ! pdu_offset bv06_awaiting)"
    by (simp add: bv06_awaiting_def bv06_def define_test_def raw_pdu_def)
  from mismatch_aborts_at_entry [OF h1 h2, of "Packet [0x02, 0x01, 0x05, 0x00]"] h3
  have "test_handler bv06_awaiting G_IO_IN (Packet [0x02, 0x01, 0x05, 0x00]) =
       Inl (AssertFailed, bv06_awaiting\<lparr>pdu_offset := pdu_offset bv06_awaiting + 1\<rparr>)"
    by blast
  then have a: "test_handler bv06_awaiting G_IO_IN (Packet [0x02, 0x01, 0x05, 0x00]) =
       Inl (AssertFailed, bv06_awaiting\<lparr>pdu_offset := 2\<rparr>)"
    by (simp add: bv06_awaiting_def)
  have b: "test_handler bv06_awaiting G_IO_IN (Packet [0x02, 0x01, 0x04, 0x00]) =
       Inr (True, bv06_awaiting\<lparr>pdu_offset := 2, main_loop_quit := True\<rparr>)"
    by (simp add: eval_defs bv06_def bv06_awaiting_def)
  from mismatch_aborts_at_entry [OF h1 h2, of "Packet [0x02, 0x01, 0x04, 0x00]"] b
  have c: "snd (sys_read 512 (Packet [0x02, 0x01, 0x04, 0x00])) =
       data (pdu_list bv06_awaiting ! pdu_offset bv06_awaiting)"
    by blast
  from h1 h2 h3 a b c show ?thesis by blast
qed

section \<open>A script of sentinels only\<close>

text \<open>
  C4, as stated, fails: \<^verbatim>\<open>test_server\<close> adds its first idle send without looking
  at the script, and \<^verbatim>\<open>send_pdu\<close> does not look at \<^verbatim>\<open>valid\<close>. Over the script of the
  two sentinels alone the idle source runs, writes the empty first entry and
  leaves the loop running.
\<close>

theorem sentinel_only_counterexample:
  "test_server (define_test []) [Idle 0] =
     Inr \<lparr>ctx = \<lparr>pdu_offset = 1, pdu_list = [sentinel, sentinel], main_loop_quit = False,
                 idle_sends = 0, fd_out = [[]]\<rparr>,
          watch = True, trace = [Sent 0 []]\<rparr>"
  by (simp add: eval_defs)

text \<open>
  C4, amended. Over the script of the two sentinels alone no run of either role
  verifies a read or asks the loop to quit, whatever the events. The first idle
  send of a server scenario makes one write of zero bytes for the sentinel
  entry; it aborts unless that write returns 0, and otherwise leaves the cursor
  at 1; a server run makes at most this one send. A client run makes no send,
  and a data event that comes first aborts on the handler's assertions, whatever
  was read.
\<close>

theorem sentinel_only_script:
  "test_server (define_test []) [Idle wr] =
     (if wr = 0
      then Inr \<lparr>ctx = \<lparr>pdu_offset = 1, pdu_list = [sentinel, sentinel],
                       main_loop_quit = False, idle_sends = 0, fd_out = [[]]\<rparr>,
                watch = True, trace = [Sent 0 []]\<rparr>
      else Inl (AssertFailed,
                \<lparr>pdu_offset = 1, pdu_list = [sentinel, sentinel], main_loop_quit = False,
                 idle_sends = 1, fd_out = [[]]\<rparr>))
   \<and> (test_server (define_test []) evs = Inr l \<longrightarrow>
        count_verified (trace l) = 0 \<and> \<not> main_loop_quit (ctx l)
        \<and> count_sent (trace l) + idle_sends (ctx l) \<le> 1)
   \<and> (test_discover (define_test []) evs = Inr l \<longrightarrow>
        count_verified (trace l) = 0 \<and> \<not> main_loop_quit (ctx l)
        \<and> count_sent (trace l) = 0 \<and> idle_sends (ctx l) = 0)
   \<and> (cond AND (G_IO_NVAL OR G_IO_ERR OR G_IO_HUP) = 0 \<longrightarrow>
        test_discover (define_test []) (Readable cond inb # evs) =
          Inl (AssertFailed,
               \<lparr>pdu_offset = 1, pdu_list = [sentinel, sentinel], main_loop_quit = False,
                idle_sends = 0, fd_out = []\<rparr>))"
proof (intro conjI impI)
  show "test_server (define_test []) [Idle wr] =
     (if wr = 0
      then Inr \<lparr>ctx = \<lparr>pdu_offset = 1, pdu_list = [sentinel, sentinel],
                       main_loop_quit = False, idle_sends = 0, fd_out = [[]]\<rparr>,
                watch = True, trace = [Sent 0 []]\<rparr>
      else Inl (AssertFailed,
                \<lparr>pdu_offset = 1, pdu_list = [sentinel, sentinel], main_loop_quit = False,
                 idle_sends = 1, fd_out = [[]]\<rparr>))"
    by (simp add: test_server_def execute_context_def create_context_def dispatch_def
        send_pdu_def pdu_at_def pdu_size_def define_test_def sentinel_def Let_def)
next
  assume "test_server (define_test []) evs = Inr l"
  then have run: "g_main_loop_run
      \<lparr>ctx = \<lparr>pdu_offset = 0, pdu_list = define_test [], main_loop_quit = False,
              idle_sends = 1, fd_out = []\<rparr>, watch = True, trace = []\<rparr> evs = Inr l"
    by (simp add: test_server_def execute_context_def create_context_def)
  from g_main_loop_run_sentinels [OF run]
  have s: "count_verified (trace l) = 0 \<and> \<not> main_loop_quit (ctx l)" by simp
  from g_main_loop_run_inv [OF run, of "define_test []" 1]
  have "loop_inv (define_test []) 1 l" by (simp add: loop_inv_def)
  with s have "count_sent (trace l) + idle_sends (ctx l) \<le> 1" by (simp add: loop_inv_def)
  with s show "count_verified (trace l) = 0" "\<not> main_loop_quit (ctx l)"
    "count_sent (trace l) + idle_sends (ctx l) \<le> 1" by simp_all
next
  assume "test_discover (define_test []) evs = Inr l"
  then have run: "g_main_loop_run
      \<lparr>ctx = \<lparr>pdu_offset = 0, pdu_list = define_test [], main_loop_quit = False,
              idle_sends = 0, fd_out = []\<rparr>, watch = True, trace = []\<rparr> evs = Inr l"
    by (simp add: test_discover_def execute_context_def create_context_def)
  from g_main_loop_run_sentinels [OF run]
  have s: "count_verified (trace l) = 0 \<and> \<not> main_loop_quit (ctx l)" by simp
  from g_main_loop_run_inv [OF run, of "define_test []" 0]
  have "loop_inv (define_test []) 0 l" by (simp add: loop_inv_def)
  with s have "count_sent (trace l) = 0 \<and> idle_sends (ctx l) = 0" by (simp add: loop_inv_def)
  with s show "count_verified (trace l) = 0" "\<not> main_loop_quit (ctx l)"
    "count_sent (trace l) = 0" "idle_sends (ctx l) = 0" by simp_all
next
  assume d: "cond AND (G_IO_NVAL OR G_IO_ERR OR G_IO_HUP) = 0"
  let ?c = "\<lparr>pdu_offset = 0, pdu_list = define_test [], main_loop_quit = False,
             idle_sends = 0, fd_out = []\<rparr>"
  have "snd (sys_read 512 inb) \<noteq> data (pdu_list ?c ! pdu_offset ?c) \<or> \<not> 0 < fst (sys_read 512 inb)"
    by (cases inb) (auto simp: define_test_def sentinel_def)
  then have "test_handler ?c cond inb = Inl (AssertFailed, ?c\<lparr>pdu_offset := pdu_offset ?c + 1\<rparr>)"
  proof
    assume "snd (sys_read 512 inb) \<noteq> data (pdu_list ?c ! pdu_offset ?c)"
    then show ?thesis
      by (intro test_handler_mismatch [OF d]) (simp_all add: define_test_def)
  next
    assume "\<not> 0 < fst (sys_read 512 inb)"
    with d show ?thesis by (simp add: test_handler_nothing_read)
  qed
  then show "test_discover (define_test []) (Readable cond inb # evs) =
          Inl (AssertFailed,
               \<lparr>pdu_offset = 1, pdu_list = [sentinel, sentinel], main_loop_quit = False,
                idle_sends = 0, fd_out = []\<rparr>)"
    by (simp add: test_discover_def execute_context_def create_context_def dispatch_def
        define_test_def)
qed

text \<open>
  A server run and a client run that go on after a hangup, and the client run
  whose first event is a data event.
\<close>

theorem sentinel_only_script_witness:
  "test_server (define_test []) [Idle 0, Readable G_IO_HUP (Packet []), Idle 0] =
     Inr \<lparr>ctx = \<lparr>pdu_offset = 2, pdu_list = [sentinel, sentinel], main_loop_quit = False,
                 idle_sends = 0, fd_out = [[]]\<rparr>,
          watch = False, trace = [Sent 0 [], Skipped 1]\<rparr>
   \<and> count_verified [Sent 0 [], Skipped 1] = 0
   \<and> count_sent [Sent 0 [], Skipped 1] + 0 \<le> 1
   \<and> test_discover (define_test []) [Readable G_IO_HUP (Packet [0x00, 0x01]), Idle 0] =
     Inr \<lparr>ctx = \<lparr>pdu_offset = 1, pdu_list = [sentinel, sentinel], main_loop_quit = False,
                 idle_sends = 0, fd_out = []\<rparr>,
          watch = False, trace = [Skipped 0]\<rparr>
   \<and> count_verified [Skipped 0] = 0
   \<and> G_IO_IN AND (G_IO_NVAL OR G_IO_ERR OR G_IO_HUP) = 0
   \<and> test_discover (define_test []) [Readable G_IO_IN (Packet [0x00, 0x01])] =
        Inl (AssertFailed,
             \<lparr>pdu_offset = 1, pdu_list = [sentinel, sentinel], main_loop_quit = False,
              idle_sends = 0, fd_out = []\<rparr>)"
proof -
  let ?ls = "\<lparr>ctx = \<lparr>pdu_offset = 2, pdu_list = [sentinel, sentinel], main_loop_quit = False,
                 idle_sends = 0, fd_out = [[]]\<rparr>,
          watch = False, trace = [Sent 0 [], Skipped 1]\<rparr>"
  let ?ld = "\<lparr>ctx = \<lparr>pdu_offset = 1, pdu_list = [sentinel, sentinel], main_loop_quit = False,
                 idle_sends = 0, fd_out = []\<rparr>,
          watch = False, trace = [Skipped 0]\<rparr>"
  have s: "test_server (define_test []) [Idle 0, Readable G_IO_HUP (Packet []), Idle 0] = Inr ?ls"
    by (simp add: eval_defs)
  have d: "test_discover (define_test []) [Readable G_IO_HUP (Packet [0x00, 0x01]), Idle 0] = Inr ?ld"
    by (simp add: eval_defs)
  from sentinel_only_script [of 0 "[Idle 0, Readable G_IO_HUP (Packet []), Idle 0]" ?ls
      G_IO_IN "Packet [0x00, 0x01]"] s
  have a: "count_verified [Sent 0 [], Skipped 1] = 0 \<and> count_sent [Sent 0 [], Skipped 1] + 0 \<le> 1"
    by simp
  from sentinel_only_script [of 0 "[Readable G_IO_HUP (Packet [0x00, 0x01]), Idle 0]" ?ld
      G_IO_IN "Packet [0x00, 0x01]"] d
  have b: "count_verified [Skipped 0] = 0" by simp
  from sentinel_only_script [of 0 "[]" ?ld G_IO_IN "Packet [0x00, 0x01]"] in_not_terminal
  have c: "test_discover (define_test []) [Readable G_IO_IN (Packet [0x00, 0x01])] =
        Inl (AssertFailed,
             \<lparr>pdu_offset = 1, pdu_list = [sentinel, sentinel], main_loop_quit = False,
              idle_sends = 0, fd_out = []\<rparr>)"
    by simp
  from s a d b c in_not_terminal show ?thesis by blast
qed

section \<open>The deferred send\<close>

text \<open>
  C5. The deferred send task takes the entry at the cursor and hands all its
  bytes to one write on the peer endpoint; it fails an assertion unless the
  write returns exactly the entry's length. After a successful write it has
  advanced the cursor by one and changed nothing else: it adds no idle source
  and does not ask the loop to quit. It returns FALSE, so the loop removes the
  idle source and the task does not run again.
\<close>

theorem send_pdu_one_write:
  assumes "pdu_offset c < length (pdu_list c)"
  shows "send_pdu c wr =
     (let pdu = pdu_list c ! pdu_offset c;
          c' = c\<lparr>pdu_offset := pdu_offset c + 1, fd_out := fd_out c @ [data pdu]\<rparr>
      in if wr = int (length (data pdu)) then Inr (False, c') else Inl (AssertFailed, c'))
   \<and> (ctx l = c \<and> 0 < idle_sends c \<and> wr = int (length (data (pdu_list c ! pdu_offset c))) \<longrightarrow>
        dispatch l (Idle wr) =
          Inr (l\<lparr>ctx := c\<lparr>pdu_offset := pdu_offset c + 1,
                          fd_out := fd_out c @ [data (pdu_list c ! pdu_offset c)],
                          idle_sends := idle_sends c - 1\<rparr>,
                 trace := trace l @
                   [Sent (pdu_offset c) (data (pdu_list c ! pdu_offset c))]\<rparr>))"
proof -
  have sp: "send_pdu c wr =
     (let pdu = pdu_list c ! pdu_offset c;
          c' = c\<lparr>pdu_offset := pdu_offset c + 1, fd_out := fd_out c @ [data pdu]\<rparr>
      in if wr = int (length (data pdu)) then Inr (False, c') else Inl (AssertFailed, c'))"
    using assms by (simp add: send_pdu_def pdu_at_def pdu_size_def Let_def)
  then show ?thesis
    by (auto simp: dispatch_def Let_def)
qed

text \<open>BV-07-C sending its discover response of 4 bytes.\<close>

theorem send_pdu_one_write_witness:
  "pdu_offset bv07_pending < length (pdu_list bv07_pending)
   \<and> send_pdu bv07_pending 4 =
       Inr (False, bv07_pending\<lparr>pdu_offset := 2, fd_out := [[0x12, 0x01, 0x04, 0x00]]\<rparr>)
   \<and> send_pdu bv07_pending 3 =
       Inl (AssertFailed, bv07_pending\<lparr>pdu_offset := 2, fd_out := [[0x12, 0x01, 0x04, 0x00]]\<rparr>)
   \<and> dispatch \<lparr>ctx = bv07_pending, watch = True, trace = [Verified 0 [0x10, 0x01]]\<rparr> (Idle 4) =
       Inr \<lparr>ctx = bv07_pending\<lparr>pdu_offset := 2, fd_out := [[0x12, 0x01, 0x04, 0x00]],
                                idle_sends := 0\<rparr>,
            watch = True,
            trace = [Verified 0 [0x10, 0x01], Sent 1 [0x12, 0x01, 0x04, 0x00]]\<rparr>"
proof -
  let ?l = "\<lparr>ctx = bv07_pending, watch = True, trace = [Verified 0 [0x10, 0x01]]\<rparr>"
  have h: "pdu_offset bv07_pending < length (pdu_list bv07_pending)"
    by (simp add: bv07_pending_def bv07_def define_test_def)
  from send_pdu_one_write [OF h, of 4 ?l] send_pdu_one_write [OF h, of 3 ?l] h show ?thesis
    by (simp add: bv07_pending_def bv07_def define_test_def raw_pdu_def)
qed

section \<open>The capability indication\<close>

text \<open>
  C6. Whatever the flag and whatever the two output slots held, the capability
  indication returns TRUE with the collection set to exactly two records, in
  this order: the media transport record without payload, then the media codec
  record for media type audio, codec type 0 and the codec bytes 0xff, 0xff, 2,
  64; the error slot is left as it was.
\<close>

theorem sep_getcap_ind_fixed:
  "sep_getcap_ind get_all caps err =
     (True,
      [\<lparr>category = AVDTP_MEDIA_TRANSPORT, cap_length = 0, cap_payload = None\<rparr>,
       \<lparr>category = AVDTP_MEDIA_CODEC, cap_length = sizeof_codec_caps + 4,
        cap_payload = Some \<lparr>media_type = AVDTP_MEDIA_TYPE_AUDIO, media_codec_type = 0,
                             codec_data = [0xff, 0xff, 2, 64]\<rparr>\<rparr>],
      err)"
  by (simp add: sep_getcap_ind_def avdtp_service_cap_new_def)

section \<open>The confirmations\<close>

text \<open>
  C7, as stated, fails for the discovery completion: \<^verbatim>\<open>discover_cb\<close> returns when
  it was given no context before it looks at the error, and \<^verbatim>\<open>test_discover\<close> and
  \<^verbatim>\<open>test_get_capabilities\<close> register it without one. An error reported to it
  then does not abort the scenario.
\<close>

theorem discover_cb_counterexample:
  "discover_cb
     \<lparr>avdtp_get_configuration_ret = 0, avdtp_open_ret = 0, avdtp_start_ret = 0,
      avdtp_set_configuration_ret = 0, remote_sep_found = True, open_dev_null_ret = 3\<rparr>
     None ([] :: nat list) (Some (Avdtp_error 104)) = Inr []"
  by (simp add: discover_cb_def)

text \<open>
  C7, amended. The set-configuration and the open completion fail an assertion
  on an error before they do anything else, with or without a context. The
  discovery completion does so when it was given a context; without one it
  returns at once and makes no call, error or not.
\<close>

theorem confirmations_assert_no_error:
  "sep_setconf_cfm eng context (Some e) = Inl AssertFailed
   \<and> sep_open_cfm eng (Some e) = Inl AssertFailed
   \<and> discover_cb eng (Some c) seps (Some e) = Inl AssertFailed
   \<and> discover_cb eng None seps err = Inr []"
  by (simp add: sep_setconf_cfm_def sep_open_cfm_def discover_cb_def)

section \<open>Terminal conditions\<close>

text \<open>
  C8, as stated, fails in its second half: a hangup while BV-06-C waits for its
  response is not fatal. The handler returns FALSE, no assertion fails and the
  loop is not asked to quit; the entry that was waited for is passed over.
\<close>

theorem hangup_not_fatal_counterexample:
  "test_server bv06 [Idle 2, Readable G_IO_HUP (Packet [])] =
     Inr \<lparr>ctx = \<lparr>pdu_offset = 2, pdu_list = bv06, main_loop_quit = False, idle_sends = 0,
                 fd_out = [[0x00, 0x01]]\<rparr>,
          watch = False, trace = [Sent 0 [0x00, 0x01], Skipped 1]\<rparr>"
  by (simp add: eval_defs bv06_def)

text \<open>
  C8, amended. On an event with the error, hangup or invalid bit set the read
  handler returns FALSE, having only advanced the cursor by one: the loop
  removes the watch, no assertion fails and the loop is not asked to quit. With
  the watch removed, no later event makes the loop quit either: as long as it
  returns, the run stays unwatched and unfinished.
\<close>

theorem terminal_condition_stops_watching:
  assumes "cond AND G_IO_ERR \<noteq> 0 \<or> cond AND G_IO_HUP \<noteq> 0 \<or> cond AND G_IO_NVAL \<noteq> 0"
  shows "test_handler c cond inb = Inr (False, c\<lparr>pdu_offset := pdu_offset c + 1\<rparr>)
     \<and> (watch l \<longrightarrow>
          dispatch l (Readable cond inb) =
            Inr (l\<lparr>ctx := (ctx l)\<lparr>pdu_offset := pdu_offset (ctx l) + 1\<rparr>, watch := False,
                   trace := trace l @ [Skipped (pdu_offset (ctx l))]\<rparr>))
     \<and> (watch l \<and> \<not> main_loop_quit (ctx l) \<and> dispatch l (Readable cond inb) = Inr l1
          \<and> g_main_loop_run l1 evs = Inr l2 \<longrightarrow>
          \<not> watch l2 \<and> \<not> main_loop_quit (ctx l2))"
proof -
  from assms have t: "cond AND (G_IO_NVAL OR G_IO_ERR OR G_IO_HUP) \<noteq> 0"
    by (simp add: terminal_iff)
  have h: "\<And>c. test_handler c cond inb = Inr (False, c\<lparr>pdu_offset := pdu_offset c + 1\<rparr>)"
    using t by (rule test_handler_terminal)
  have d: "watch l \<Longrightarrow> dispatch l (Readable cond inb) =
            Inr (l\<lparr>ctx := (ctx l)\<lparr>pdu_offset := pdu_offset (ctx l) + 1\<rparr>, watch := False,
                   trace := trace l @ [Skipped (pdu_offset (ctx l))]\<rparr>)"
    by (simp add: h dispatch_def)
  have r: "\<not> watch l2 \<and> \<not> main_loop_quit (ctx l2)"
    if a: "watch l \<and> \<not> main_loop_quit (ctx l) \<and> dispatch l (Readable cond inb) = Inr l1
          \<and> g_main_loop_run l1 evs = Inr l2"
  proof -
    from a d have l1: "l1 = l\<lparr>ctx := (ctx l)\<lparr>pdu_offset := pdu_offset (ctx l) + 1\<rparr>,
        watch := False, trace := trace l @ [Skipped (pdu_offset (ctx l))]\<rparr>"
      by simp
    from a have run: "g_main_loop_run l1 evs = Inr l2" by simp
    from a l1 have "\<not> watch l1" "\<not> main_loop_quit (ctx l1)" by simp_all
    from g_main_loop_run_unwatched [OF run this] show ?thesis .
  qed
  from h d r show ?thesis by blast
qed

text \<open>The hangup on BV-06-C waiting for its response, followed by that response.\<close>

theorem terminal_condition_stops_watching_witness:
  "G_IO_HUP AND G_IO_HUP \<noteq> 0
   \<and> test_handler bv06_awaiting G_IO_HUP (Packet [0x02, 0x01, 0x04, 0x00]) =
       Inr (False, bv06_awaiting\<lparr>pdu_offset := 2\<rparr>)
   \<and> dispatch \<lparr>ctx = bv06_awaiting, watch = True, trace = [Sent 0 [0x00, 0x01]]\<rparr>
        (Readable G_IO_HUP (Packet [0x02, 0x01, 0x04, 0x00])) =
       Inr \<lparr>ctx = bv06_awaiting\<lparr>pdu_offset := 2\<rparr>, watch = False,
            trace = [Sent 0 [0x00, 0x01], Skipped 1]\<rparr>
   \<and> g_main_loop_run
        \<lparr>ctx = bv06_awaiting\<lparr>pdu_offset := 2\<rparr>, watch = False,
         trace = [Sent 0 [0x00, 0x01], Skipped 1]\<rparr>
        [Readable G_IO_IN (Packet [0x02, 0x01, 0x04, 0x00])] =
       Inr \<lparr>ctx = bv06_awaiting\<lparr>pdu_offset := 2\<rparr>, watch = False,
            trace = [Sent 0 [0x00, 0x01], Skipped 1]\<rparr>
   \<and> \<not> main_loop_quit (bv06_awaiting\<lparr>pdu_offset := 2\<rparr>)"
proof -
  let ?l = "\<lparr>ctx = bv06_awaiting, watch = True, trace = [Sent 0 [0x00, 0x01]]\<rparr>"
  let ?l1 = "\<lparr>ctx = bv06_awaiting\<lparr>pdu_offset := 2\<rparr>, watch = False,
              trace = [Sent 0 [0x00, 0x01], Skipped 1]\<rparr>"
  let ?inb = "Packet [0x02, 0x01, 0x04, 0x00]"
  have h: "G_IO_HUP AND G_IO_ERR \<noteq> 0 \<or> G_IO_HUP AND G_IO_HUP \<noteq> 0 \<or> G_IO_HUP AND G_IO_NVAL \<noteq> 0"
    by (simp add: G_IO_HUP_def)
  note t = terminal_condition_stops_watching [OF h, of bv06_awaiting ?inb ?l ?l1
      "[Readable G_IO_IN ?inb]" ?l1]
  from t have a: "test_handler bv06_awaiting G_IO_HUP ?inb =
       Inr (False, bv06_awaiting\<lparr>pdu_offset := 2\<rparr>)"
    by (simp add: bv06_awaiting_def)
  from t have b: "dispatch ?l (Readable G_IO_HUP ?inb) = Inr ?l1"
    by (simp add: bv06_awaiting_def)
  have c: "g_main_loop_run ?l1 [Readable G_IO_IN ?inb] = Inr ?l1"
    by (simp add: bv06_awaiting_def dispatch_def)
  have w: "watch ?l \<and> \<not> main_loop_quit (ctx ?l)" by (simp add: bv06_awaiting_def)
  from t w b c have "\<not> main_loop_quit (ctx ?l1)" by blast
  then have d: "\<not> main_loop_quit (bv06_awaiting\<lparr>pdu_offset := 2\<rparr>)" by simp
  have h': "G_IO_HUP AND G_IO_HUP \<noteq> 0" by (simp add: G_IO_HUP_def)
  from h' a b c d show ?thesis by blast
qed

text \<open>
  C9. Every call of the read handler leaves the cursor exactly one further,
  whether it returns or aborts, since the entry is taken and the cursor moved
  before the condition is looked at. On an event with the error, hangup or
  invalid bit set the handler returns FALSE with the cursor advanced by one and
  nothing else changed, whatever the kernel holds and whatever the script is:
  nothing is read and nothing compared, yet one entry is used up.
\<close>

theorem handler_always_consumes_entry:
  "pdu_offset (outcome_context (test_handler c cond inb)) = pdu_offset c + 1
   \<and> (cond AND (G_IO_NVAL OR G_IO_ERR OR G_IO_HUP) \<noteq> 0 \<longrightarrow>
        test_handler c cond inb = Inr (False, c\<lparr>pdu_offset := pdu_offset c + 1\<rparr>))"
proof (intro conjI impI)
  show "pdu_offset (outcome_context (test_handler c cond inb)) = pdu_offset c + 1"
    by (rule test_handler_offset)
next
  assume "cond AND (G_IO_NVAL OR G_IO_ERR OR G_IO_HUP) \<noteq> 0"
  then show "test_handler c cond inb = Inr (False, c\<lparr>pdu_offset := pdu_offset c + 1\<rparr>)"
    by (rule test_handler_terminal)
qed

theorem handler_always_consumes_entry_witness:
  "G_IO_NVAL AND (G_IO_NVAL OR G_IO_ERR OR G_IO_HUP) \<noteq> 0
   \<and> test_handler bv06_awaiting G_IO_NVAL ReadError =
       Inr (False, bv06_awaiting\<lparr>pdu_offset := 2\<rparr>)
   \<and> pdu_offset (outcome_context (test_handler bv06_awaiting G_IO_NVAL ReadError)) = 2"
proof -
  have h: "G_IO_NVAL AND (G_IO_NVAL OR G_IO_ERR OR G_IO_HUP) \<noteq> 0"
    by (simp add: G_IO_HUP_def G_IO_NVAL_def G_IO_ERR_def)
  from handler_always_consumes_entry [of bv06_awaiting G_IO_NVAL ReadError] h
  show ?thesis by (simp add: bv06_awaiting_def outcome_context_def)
qed

section \<open>The read buffer\<close>

text \<open>
  C10. On a data event the handler reads once, into a buffer of 512 bytes: its
  result depends on what the kernel holds only through what that one read
  returns. A read that returns an error or zero bytes fails the assertion on a
  positive count. An entry of more than 512 bytes is never verified, whatever
  the peer sent, its own bytes included.
\<close>

theorem read_into_512_bytes:
  assumes "cond AND (G_IO_NVAL OR G_IO_ERR OR G_IO_HUP) = 0"
  shows "(sys_read 512 inb = sys_read 512 inb2 \<longrightarrow>
            test_handler c cond inb = test_handler c cond inb2)
     \<and> (inb = ReadError \<or> inb = Packet [] \<longrightarrow>
            test_handler c cond inb = Inl (AssertFailed, c\<lparr>pdu_offset := pdu_offset c + 1\<rparr>))
     \<and> (pdu_offset c < length (pdu_list c) \<and> 512 < pdu_size (pdu_list c ! pdu_offset c) \<longrightarrow>
            test_handler c cond inb = Inl (AssertFailed, c\<lparr>pdu_offset := pdu_offset c + 1\<rparr>))"
proof (intro conjI impI)
  assume "sys_read 512 inb = sys_read 512 inb2"
  then show "test_handler c cond inb = test_handler c cond inb2"
    by (simp add: test_handler_def Let_def)
next
  assume "inb = ReadError \<or> inb = Packet []"
  then have "\<not> 0 < fst (sys_read 512 inb)" by auto
  with assms show "test_handler c cond inb = Inl (AssertFailed, c\<lparr>pdu_offset := pdu_offset c + 1\<rparr>)"
    by (rule test_handler_nothing_read)
next
  assume a: "pdu_offset c < length (pdu_list c) \<and> 512 < pdu_size (pdu_list c ! pdu_offset c)"
  obtain len buf where r: "sys_read 512 inb = (len, buf)" by (cases "sys_read 512 inb")
  from sys_read_bound [OF r] have "length buf \<le> 512" by simp
  with a r have "snd (sys_read 512 inb) \<noteq> data (pdu_list c ! pdu_offset c)"
    by (auto simp: pdu_size_def)
  with assms a show "test_handler c cond inb = Inl (AssertFailed, c\<lparr>pdu_offset := pdu_offset c + 1\<rparr>)"
    by (intro test_handler_mismatch) simp_all
qed

text \<open>An entry of 513 bytes, offered nothing and then its own 513 bytes.\<close>

theorem read_into_512_bytes_witness:
  "G_IO_IN AND (G_IO_NVAL OR G_IO_ERR OR G_IO_HUP) = 0
   \<and> test_handler long_entry G_IO_IN (Packet []) =
       Inl (AssertFailed, long_entry\<lparr>pdu_offset := 1\<rparr>)
   \<and> (pdu_offset long_entry < length (pdu_list long_entry)
       \<and> 512 < pdu_size (pdu_list long_entry ! pdu_offset long_entry))
   \<and> Packet (replicate 513 0x2a) = Packet (data (pdu_list long_entry ! pdu_offset long_entry))
   \<and> test_handler long_entry G_IO_IN (Packet (replicate 513 0x2a)) =
       Inl (AssertFailed, long_entry\<lparr>pdu_offset := 1\<rparr>)"
proof -
  have h: "G_IO_IN AND (G_IO_NVAL OR G_IO_ERR OR G_IO_HUP) = 0" by (rule in_not_terminal)
  have g: "pdu_offset long_entry < length (pdu_list long_entry)
       \<and> 512 < pdu_size (pdu_list long_entry ! pdu_offset long_entry)"
    by (simp add: long_entry_def define_test_def raw_pdu_def pdu_size_def)
  have e: "Packet (replicate 513 0x2a) =
      Packet (data (pdu_list long_entry ! pdu_offset long_entry))"
    by (simp add: long_entry_def define_test_def raw_pdu_def)
  from read_into_512_bytes [OF h, of "Packet []" "Packet []" long_entry]
  have a: "test_handler long_entry G_IO_IN (Packet []) =
       Inl (AssertFailed, long_entry\<lparr>pdu_offset := 1\<rparr>)"
    by (simp add: long_entry_def)
  from read_into_512_bytes [OF h, of "Packet (replicate 513 0x2a)" "Packet []" long_entry] g
  have b: "test_handler long_entry G_IO_IN (Packet (replicate 513 0x2a)) =
       Inl (AssertFailed, long_entry\<lparr>pdu_offset := 1\<rparr>)"
    by (simp add: long_entry_def)
  from h a g e b show ?thesis by blast
qed

end
